theory Spec2Isabelle
  imports Complex_Main "HOL-Library.AList" "HOL-Library.Sublist"
begin

section \<open>Data model of the tool registry (src/MCPControl/src/types)\<close>

text \<open>
  The TypeScript types are inferred from the zod schemas. A JavaScript \<open>number\<close> is modelled
  as an exact rational (\<^typ>\<open>rat\<close>) where it is a measured quantity, and as \<^typ>\<open>nat\<close> where it
  is a counter or an epoch timestamp in milliseconds. An optional field is an \<^typ>\<open>'a option\<close>.
  Strings are \<^typ>\<open>string\<close>; \<open>toLowerCase\<close> is modelled on the ASCII letters.
  Logging and event emission have no effect on the registry state and are left out.
\<close>

datatype json =
    JNull
  | JBool bool
  | JNum rat
  | JStr string
  | JArr "json list"
  | JObj "(string \<times> json) list"

record MCPTool =
  name :: string
  description :: string
  inputSchema :: json
  serverId :: "string option"
  version :: "string option"

record MCPServerInfo =
  srv_id :: string
  srv_name :: string
  srv_version :: string
  protocolVersion :: string
  url :: "string option"
  lastSeen :: string
  discoveredAt :: "nat option"
  srv_lastUpdated :: "nat option"

record resourceRequirements =
  cpu :: "rat option"
  memory :: "rat option"
  network :: bool

datatype healthStatus = healthy | degraded | unhealthy

record ToolRegistryEntry =
  entry_id :: string
  tool :: MCPTool
  entry_serverId :: string
  category :: string
  tags :: "string list"
  isAvailable :: bool
  lastExecuted :: "nat option"
  executionCount :: nat
  averageExecutionTime :: rat
  successRate :: rat
  registeredAt :: nat
  lastUpdated :: nat
  dependencies :: "string list"
  conflictsWith :: "string list"
  estimatedExecutionTime :: "rat option"
  resourceReqs :: "resourceRequirements option"
  entry_healthStatus :: healthStatus

record ToolExecutionResult =
  success :: bool
  result :: "json option"
  error :: "string option"
  executionTime :: rat
  toolName :: string
  sessionId :: string
  workflowId :: "string option"
  timestamp :: string

section \<open>String helpers used by the registry\<close>

definition lower_char :: "char \<Rightarrow> char" where
  "lower_char c =
     (let n = (of_char c :: nat) in if 65 \<le> n \<and> n \<le> 90 then char_of (n + 32) else c)"

definition toLowerCase :: "string \<Rightarrow> string" where
  "toLowerCase s = map lower_char s"

text \<open>\<open>s.includes(sub)\<close>: \<open>sub\<close> occurs in \<open>s\<close> as a contiguous run of characters.\<close>

fun includes_str :: "string \<Rightarrow> string \<Rightarrow> bool" where
  "includes_str [] sub = (sub = [])"
| "includes_str (c # cs) sub = (prefix sub (c # cs) \<or> includes_str cs sub)"

section \<open>Categories and tags (ToolRegistry.categorizeTool, generateTags)\<close>

definition categorizeTool :: "MCPTool \<Rightarrow> string" where
  "categorizeTool t =
     (let nm = toLowerCase (name t); ds = toLowerCase (description t) in
      if includes_str nm ''rag'' \<or> includes_str ds ''rag'' \<or> includes_str nm ''search'' \<or>
         includes_str ds ''search'' \<or> includes_str nm ''retrieval'' \<or> includes_str ds ''retrieval''
      then ''rag''
      else if includes_str nm ''project'' \<or> includes_str ds ''project'' \<or> includes_str nm ''task'' \<or>
         includes_str ds ''task'' \<or> includes_str nm ''document'' \<or> includes_str ds ''document''
      then ''project-management''
      else if includes_str nm ''data'' \<or> includes_str ds ''data'' \<or> includes_str nm ''database'' \<or>
         includes_str ds ''database'' \<or> includes_str nm ''sql'' \<or> includes_str ds ''sql''
      then ''data''
      else if includes_str nm ''code'' \<or> includes_str ds ''code'' \<or> includes_str nm ''git'' \<or>
         includes_str ds ''git'' \<or> includes_str nm ''build'' \<or> includes_str ds ''build''
      then ''development''
      else if includes_str nm ''notification'' \<or> includes_str ds ''notification'' \<or>
         includes_str nm ''message'' \<or> includes_str ds ''message'' \<or> includes_str nm ''email'' \<or>
         includes_str ds ''email''
      then ''communication''
      else if includes_str nm ''file'' \<or> includes_str ds ''file'' \<or> includes_str nm ''upload'' \<or>
         includes_str ds ''upload'' \<or> includes_str nm ''download'' \<or> includes_str ds ''download''
      then ''file-management''
      else ''general'')"

definition generateTags :: "MCPTool \<Rightarrow> string list" where
  "generateTags t =
     (let nm = toLowerCase (name t); ds = toLowerCase (description t);
          tag = (\<lambda>kw. if includes_str nm kw \<or> includes_str ds kw then [kw] else [])
      in tag ''create'' @ tag ''update'' @ tag ''delete'' @ tag ''list'' @ tag ''search'' @
         tag ''ai'' @ tag ''async'' @ tag ''real-time'')"

subsection \<open>The categorisation rule as the specification words it\<close>

text \<open>
  The priority table of the specification: each category with its keywords, in priority order.
  A keyword occurs case-insensitively in a text when it occurs in the lower-cased text.
\<close>

definition spec_category_table :: "(string \<times> string list) list" where
  "spec_category_table =
     [(''rag'', [''rag'', ''search'', ''retrieval'']),
      (''project-management'', [''project'', ''task'', ''document'']),
      (''data'', [''data'', ''database'', ''sql'']),
      (''development'', [''code'', ''git'', ''build'']),
      (''communication'', [''notification'', ''message'', ''email'']),
      (''file-management'', [''file'', ''upload'', ''download''])]"

definition occurs_ci :: "string \<Rightarrow> string \<Rightarrow> bool" where
  "occurs_ci kw text = includes_str (toLowerCase text) kw"

definition spec_matches :: "MCPTool \<Rightarrow> string \<times> string list \<Rightarrow> bool" where
  "spec_matches t row =
     list_ex (\<lambda>kw. occurs_ci kw (name t) \<or> occurs_ci kw (description t)) (snd row)"

definition spec_category :: "MCPTool \<Rightarrow> string" where
  "spec_category t =
     (case List.find (spec_matches t) spec_category_table of
        None \<Rightarrow> ''general''
      | Some row \<Rightarrow> fst row)"

section \<open>The registry state and discovery (ToolRegistry.ts)\<close>

text \<open>
  A JavaScript \<open>Map\<close> keeps its keys in insertion order and holds each key once: it is an
  association list, \<open>get\<close> is \<^const>\<open>map_of\<close> and \<open>set\<close> is \<^const>\<open>AList.update\<close>, which
  replaces the value of a present key in place and appends an absent key.
  The clock reading \<open>Date.now()\<close> is a parameter \<open>now\<close> of each operation; the readings
  within one operation are taken to be equal. The field \<open>saveTimer\<close> says whether a debounced
  save has been scheduled; the write itself is \<open>saveRegistry\<close>.
\<close>

record registry =
  tools :: "(string \<times> ToolRegistryEntry) list"
  servers :: "(string \<times> MCPServerInfo) list"
  isInitialized :: bool
  saveTimer :: bool

definition new_registry :: registry where
  "new_registry = \<lparr>tools = [], servers = [], isInitialized = False, saveTimer = False\<rparr>"

text \<open>\<open>x || d\<close> on numbers: zero is falsy, so the default replaces it.\<close>

definition or_else :: "'a::zero \<Rightarrow> 'a \<Rightarrow> 'a" where
  "or_else x d = (if x = 0 then d else x)"

text \<open>\<open>tool.serverId || 'unknown'\<close>: an absent or empty server id is \<open>unknown\<close>.\<close>

definition serverId_or_unknown :: "MCPTool \<Rightarrow> string" where
  "serverId_or_unknown t =
     (case serverId t of None \<Rightarrow> ''unknown'' | Some s \<Rightarrow> if s = [] then ''unknown'' else s)"

definition generateToolId :: "MCPTool \<Rightarrow> string" where
  "generateToolId t = serverId_or_unknown t @ '':'' @ name t"

text \<open>
  \<open>JSON.stringify\<close> of two JSON values gives the same text exactly when the values are
  structurally equal (object keys in order), so the comparison of the input schemas is
  inequality of \<^typ>\<open>json\<close> values.
\<close>

definition hasToolChanged :: "MCPTool \<Rightarrow> MCPTool \<Rightarrow> bool" where
  "hasToolChanged existing updated =
     (description existing \<noteq> description updated \<or>
      inputSchema existing \<noteq> inputSchema updated \<or>
      version existing \<noteq> version updated)"

definition saveRegistryDebounced :: "registry \<Rightarrow> registry" where
  "saveRegistryDebounced st = st\<lparr>saveTimer := True\<rparr>"

text \<open>The entry that \<open>updateTools\<close> builds for a new or changed tool.\<close>

definition registryEntry :: "nat \<Rightarrow> MCPTool \<Rightarrow> ToolRegistryEntry option \<Rightarrow> ToolRegistryEntry" where
  "registryEntry now t existing =
     \<lparr>entry_id = generateToolId t,
      tool = t,
      entry_serverId = serverId_or_unknown t,
      category = categorizeTool t,
      tags = generateTags t,
      isAvailable = True,
      lastExecuted = (case existing of None \<Rightarrow> None | Some e \<Rightarrow> lastExecuted e),
      executionCount = (case existing of None \<Rightarrow> 0 | Some e \<Rightarrow> or_else (executionCount e) 0),
      averageExecutionTime =
        (case existing of None \<Rightarrow> 0 | Some e \<Rightarrow> or_else (averageExecutionTime e) 0),
      successRate = (case existing of None \<Rightarrow> 1 | Some e \<Rightarrow> or_else (successRate e) 1),
      registeredAt = (case existing of None \<Rightarrow> now | Some e \<Rightarrow> or_else (registeredAt e) now),
      lastUpdated = now,
      dependencies = (case existing of None \<Rightarrow> [] | Some e \<Rightarrow> dependencies e),
      conflictsWith = (case existing of None \<Rightarrow> [] | Some e \<Rightarrow> conflictsWith e),
      estimatedExecutionTime = None,
      resourceReqs = (case existing of None \<Rightarrow> None | Some e \<Rightarrow> resourceReqs e),
      entry_healthStatus = healthy\<rparr>"

text \<open>One iteration of the first loop of \<open>updateTools\<close>.\<close>

definition upsertTool :: "nat \<Rightarrow> registry \<Rightarrow> MCPTool \<Rightarrow> registry" where
  "upsertTool now st t =
     (let toolId = generateToolId t; existing = map_of (tools st) toolId in
      if (case existing of None \<Rightarrow> True | Some e \<Rightarrow> hasToolChanged (tool e) t)
      then saveRegistryDebounced
             (st\<lparr>tools := AList.update toolId (registryEntry now t existing) (tools st)\<rparr>)
      else st)"

text \<open>The second loop of \<open>updateTools\<close>: entries whose id was not seen in this pass.\<close>

definition markUnavailable :: "nat \<Rightarrow> string list \<Rightarrow> string \<times> ToolRegistryEntry \<Rightarrow> string \<times> ToolRegistryEntry" where
  "markUnavailable now updatedTools p =
     (if fst p \<notin> set updatedTools \<and> isAvailable (snd p)
      then (fst p, (snd p)\<lparr>isAvailable := False, lastUpdated := now\<rparr>)
      else p)"

definition markMissing :: "nat \<Rightarrow> string list \<Rightarrow> registry \<Rightarrow> registry" where
  "markMissing now updatedTools st =
     st\<lparr>tools := map (markUnavailable now updatedTools) (tools st),
        saveTimer := (saveTimer st \<or>
           list_ex (\<lambda>p. fst p \<notin> set updatedTools \<and> isAvailable (snd p)) (tools st))\<rparr>"

text \<open>
  \<open>updateTools\<close> on an array of tools of the declared type: the set \<open>updatedTools\<close> collected
  by the first loop is the list of the ids generated for the tools of the pass.
\<close>

definition updateTools :: "nat \<Rightarrow> MCPTool list \<Rightarrow> registry \<Rightarrow> registry" where
  "updateTools now ts st = markMissing now (map generateToolId ts) (foldl (upsertTool now) st ts)"

definition updateServer :: "nat \<Rightarrow> registry \<Rightarrow> MCPServerInfo \<Rightarrow> registry" where
  "updateServer now st server =
     (let existing = map_of (servers st) (srv_id server) in
      saveRegistryDebounced
        (if (case existing of None \<Rightarrow> True | Some e \<Rightarrow> lastSeen e \<noteq> lastSeen server)
         then st\<lparr>servers := AList.update (srv_id server)
                (server\<lparr>discoveredAt :=
                           Some (case existing of
                                   None \<Rightarrow> now
                                 | Some e \<Rightarrow> (case discoveredAt e of
                                                None \<Rightarrow> now
                                              | Some d \<Rightarrow> or_else d now)),
                         srv_lastUpdated := Some now\<rparr>)
                (servers st)\<rparr>
         else st))"

definition updateServers :: "nat \<Rightarrow> MCPServerInfo list \<Rightarrow> registry \<Rightarrow> registry" where
  "updateServers now ss st = foldl (updateServer now) st ss"

subsection \<open>A discovery pass\<close>

text \<open>
  What \<open>axios.get\<close> gives back: it rejects (connection refused, an HTTP error status, another
  network error), or it resolves with a body whose \<open>tools\<close> and \<open>servers\<close> fields are arrays
  or not (\<open>None\<close>: the field is missing or not an array; a body that is no object has
  neither). The body is not validated, so an element of an array need not have the declared
  type: an element of the tools array is a tool, or an object with the fields of a tool but
  no name, or \<open>null\<close>; an element of the servers array is a server info or \<open>null\<close>.
\<close>

datatype axios_error =
    ECONNREFUSED
  | HttpStatus nat
  | NetworkError string

record namelessTool =
  n_description :: string
  n_inputSchema :: json
  n_serverId :: "string option"
  n_version :: "string option"

datatype tool_item = Tool MCPTool | Nameless namelessTool | NullItem

record tools_payload =
  p_tools :: "tool_item list option"
  p_servers :: "MCPServerInfo option list option"

datatype axios_get = Rejects axios_error | Resolves tools_payload

datatype discovery_error = AxiosError axios_error | InvalidToolsResponseFormat | TypeError

text \<open>
  What the code reads of an object without a name before it fails on it: the template
  literal of \<open>generateToolId\<close> prints the missing name as \<open>undefined\<close>, and \<open>hasToolChanged\<close>
  reads the description, the input schema and the version.
\<close>

definition asTool :: "namelessTool \<Rightarrow> MCPTool" where
  "asTool n =
     \<lparr>name = ''undefined'', description = n_description n, inputSchema = n_inputSchema n,
      serverId = n_serverId n, version = n_version n\<rparr>"

text \<open>
  \<open>updateServers\<close> on the array as it arrives: \<open>server.id\<close> of a \<open>null\<close> element throws a
  \<open>TypeError\<close>, and the servers that were set before it stay set. \<open>Inl\<close> is the state at the
  throw, \<open>Inr\<close> the state after the whole loop.
\<close>

fun updateServersArray :: "nat \<Rightarrow> MCPServerInfo option list \<Rightarrow> registry \<Rightarrow> registry + registry" where
  "updateServersArray now [] st = Inr st"
| "updateServersArray now (None # items) st = Inl st"
| "updateServersArray now (Some server # items) st =
     updateServersArray now items (updateServer now st server)"

text \<open>
  The first loop of \<open>updateTools\<close> on the array as it arrives, with the set \<open>updatedTools\<close>
  that it collects. On a \<open>null\<close> element \<open>generateToolId\<close> throws a \<open>TypeError\<close> when it reads
  \<open>tool.serverId\<close>. An object without a name gets an id and joins \<open>updatedTools\<close>; when it has
  no entry or differs from its entry, \<open>categorizeTool\<close> throws a \<open>TypeError\<close> on
  \<open>tool.name.toLowerCase()\<close> while the new entry is built, before \<open>tools.set\<close>; otherwise the
  loop goes on. The entries that were set before a throw stay set.
\<close>

fun upsertItems ::
  "nat \<Rightarrow> tool_item list \<Rightarrow> registry \<times> string list \<Rightarrow> registry + registry \<times> string list" where
  "upsertItems now [] acc = Inr acc"
| "upsertItems now (Tool t # items) (st, updatedTools) =
     upsertItems now items (upsertTool now st t, updatedTools @ [generateToolId t])"
| "upsertItems now (Nameless n # items) (st, updatedTools) =
     (let toolId = generateToolId (asTool n); existing = map_of (tools st) toolId in
      if (case existing of None \<Rightarrow> True | Some e \<Rightarrow> hasToolChanged (tool e) (asTool n))
      then Inl st
      else upsertItems now items (st, updatedTools @ [toolId]))"
| "upsertItems now (NullItem # items) (st, updatedTools) = Inl st"

text \<open>
  \<open>updateTools\<close> on the array as it arrives: a throw in the first loop leaves the function,
  so the second loop does not run.
\<close>

definition updateToolsArray :: "nat \<Rightarrow> tool_item list \<Rightarrow> registry \<Rightarrow> registry + registry" where
  "updateToolsArray now items st =
     (case upsertItems now items (st, []) of
        Inl st' \<Rightarrow> Inl st'
      | Inr (st', updatedTools) \<Rightarrow> Inr (markMissing now updatedTools st'))"

text \<open>
  The body of the \<open>try\<close> block of \<open>discoverTools\<close>. An error comes with the state at the
  throw: the rejection of the request and the check of the tools array come before the first
  write, a \<open>TypeError\<close> on an element of an array comes after the writes for the elements
  before it.
\<close>

definition discoverTools_try ::
  "nat \<Rightarrow> axios_get \<Rightarrow> registry \<Rightarrow> discovery_error \<times> registry + registry" where
  "discoverTools_try now response st =
     (case response of
        Rejects e \<Rightarrow> Inl (AxiosError e, st)
      | Resolves body \<Rightarrow>
          (case p_tools body of
             None \<Rightarrow> Inl (InvalidToolsResponseFormat, st)
           | Some items \<Rightarrow>
               (case (case p_servers body of
                        None \<Rightarrow> Inr st
                      | Some ss \<Rightarrow> updateServersArray now ss st) of
                  Inl st1 \<Rightarrow> Inl (TypeError, st1)
                | Inr st1 \<Rightarrow>
                    (case updateToolsArray now items st1 of
                       Inl st2 \<Rightarrow> Inl (TypeError, st2)
                     | Inr st2 \<Rightarrow> Inr (saveRegistryDebounced st2)))))"

text \<open>
  \<open>discoverTools\<close>: the \<open>catch\<close> block logs the error and returns normally; the registry is
  as the throw left it.
\<close>

definition discoverTools :: "nat \<Rightarrow> axios_get \<Rightarrow> registry \<Rightarrow> discovery_error + registry" where
  "discoverTools now response st =
     (case discoverTools_try now response st of
        Inl (e, st') \<Rightarrow> Inr st'
      | Inr st' \<Rightarrow> Inr st')"

subsection \<open>Persistence\<close>

text \<open>
  The snapshot file holds the JSON text of the payload; \<open>JSON.stringify\<close> followed by
  \<open>JSON.parse\<close> is taken to give back the payload's values. Reading the file fails with
  \<open>ENOENT\<close> or with another error, or its text does not parse to an object, or it parses to
  an object whose \<open>tools\<close> and \<open>servers\<close> fields are arrays or not. An element of such an
  array is an entry (a server info) or \<open>null\<close>.
\<close>

record snapshot =
  snap_tools :: "ToolRegistryEntry option list option"
  snap_servers :: "MCPServerInfo option list option"
  savedAt :: "nat option"

datatype persistenceFile = ENOENT | ReadFails string | NotJson | Parsed snapshot

datatype persistence_error = ReadError string | SyntaxError | NullElement | WriteError string

text \<open>
  The two loops of \<open>loadPersistedRegistry\<close>: \<open>t.id\<close> of a \<open>null\<close> element throws a
  \<open>TypeError\<close>, and what was set before it stays set (\<open>Inl\<close>: the state at the throw).
\<close>

fun restoreTools :: "ToolRegistryEntry option list \<Rightarrow> registry \<Rightarrow> registry + registry" where
  "restoreTools [] st = Inr st"
| "restoreTools (None # ts) st = Inl st"
| "restoreTools (Some t # ts) st =
     restoreTools ts (st\<lparr>tools := AList.update (entry_id t) t (tools st)\<rparr>)"

fun restoreServers :: "MCPServerInfo option list \<Rightarrow> registry \<Rightarrow> registry + registry" where
  "restoreServers [] st = Inr st"
| "restoreServers (None # ss) st = Inl st"
| "restoreServers (Some s # ss) st =
     restoreServers ss (st\<lparr>servers := AList.update (srv_id s) s (servers st)\<rparr>)"

text \<open>
  \<open>loadPersistedRegistry\<close> returns normally when the file does not exist and throws every
  other error; an error comes with the state at the throw.
\<close>

definition loadPersistedRegistry ::
  "persistenceFile \<Rightarrow> registry \<Rightarrow> persistence_error \<times> registry + registry" where
  "loadPersistedRegistry file st =
     (case file of
        ENOENT \<Rightarrow> Inr st
      | ReadFails msg \<Rightarrow> Inl (ReadError msg, st)
      | NotJson \<Rightarrow> Inl (SyntaxError, st)
      | Parsed parsed \<Rightarrow>
          (case (case snap_tools parsed of
                   None \<Rightarrow> Inr st
                 | Some ts \<Rightarrow> restoreTools ts st) of
             Inl st1 \<Rightarrow> Inl (NullElement, st1)
           | Inr st1 \<Rightarrow>
               (case (case snap_servers parsed of
                        None \<Rightarrow> Inr st1
                      | Some ss \<Rightarrow> restoreServers ss st1) of
                  Inl st2 \<Rightarrow> Inl (NullElement, st2)
                | Inr st2 \<Rightarrow> Inr st2)))"

text \<open>
  \<open>saveRegistry\<close>: \<open>writeFails\<close> is the error of \<open>mkdir\<close> or \<open>writeFile\<close>, if any; otherwise
  the file afterwards holds the payload, the values of the two maps in their order.
\<close>

definition saveRegistry :: "nat \<Rightarrow> string option \<Rightarrow> registry \<Rightarrow> persistence_error + persistenceFile" where
  "saveRegistry now writeFails st =
     (case writeFails of
        Some msg \<Rightarrow> Inl (WriteError msg)
      | None \<Rightarrow>
          Inr (Parsed \<lparr>snap_tools = Some (map (\<lambda>p. Some (snd p)) (tools st)),
                       snap_servers = Some (map (\<lambda>p. Some (snd p)) (servers st)),
                       savedAt = Some now\<rparr>))"

text \<open>
  \<open>initialize\<close>: a failure of the load is caught and logged; the discovery follows on the
  state the load left.
\<close>

definition initialize :: "nat \<Rightarrow> persistenceFile \<Rightarrow> axios_get \<Rightarrow> registry \<Rightarrow> discovery_error + registry" where
  "initialize now file response st =
     (if isInitialized st then Inr st
      else
        (let st1 = (case loadPersistedRegistry file st of Inl (e, s) \<Rightarrow> s | Inr s \<Rightarrow> s) in
         case discoverTools now response st1 of
           Inl e \<Rightarrow> Inl e
         | Inr st2 \<Rightarrow> Inr (st2\<lparr>isInitialized := True\<rparr>)))"

definition listTools :: "registry \<Rightarrow> ToolRegistryEntry list" where
  "listTools st = map snd (tools st)"

definition getTool :: "registry \<Rightarrow> string \<Rightarrow> ToolRegistryEntry option" where
  "getTool st toolId = map_of (tools st) toolId"

subsection \<open>Execution through the remote plane\<close>

datatype exec_error = ToolNotFound string | ToolNotAvailable string | RemoteError string

text \<open>What \<open>axios.post\<close> gives back: the response body, or a rejection.\<close>

datatype axios_post = Responds ToolExecutionResult | Throws string

text \<open>\<open>Math.round\<close> is \<^const>\<open>round\<close>: the nearest integer, a half rounded up.\<close>

definition updateToolStatistics :: "nat \<Rightarrow> string \<Rightarrow> rat \<Rightarrow> bool \<Rightarrow> registry \<Rightarrow> registry" where
  "updateToolStatistics now toolId duration succeeded st =
     (case map_of (tools st) toolId of
        None \<Rightarrow> st
      | Some e \<Rightarrow>
          (let totalExecutions = executionCount e + 1;
               average = (if averageExecutionTime e = 0 then duration
                          else (averageExecutionTime e + duration) / 2);
               previousSuccesses =
                 round (or_else (successRate e) 1 * of_nat (totalExecutions - 1));
               currentSuccesses = previousSuccesses + (if succeeded then 1 else 0)
           in st\<lparr>tools := AList.update toolId
                   (e\<lparr>executionCount := totalExecutions,
                      lastExecuted := Some now,
                      averageExecutionTime := average,
                      successRate := of_int currentSuccesses / of_nat totalExecutions,
                      lastUpdated := now\<rparr>)
                   (tools st)\<rparr>))"

text \<open>
  \<open>executeTool\<close>: \<open>duration\<close> is the reading of the timer when the call ends. The two guards
  throw inside the \<open>try\<close> block, so the \<open>catch\<close> block handles them as it handles a rejection
  of the request. The third component lists the tool ids of the requests posted to the
  remote plane.
\<close>

definition executeTool ::
  "nat \<Rightarrow> rat \<Rightarrow> axios_post \<Rightarrow> string \<Rightarrow> registry \<Rightarrow>
   (exec_error + ToolExecutionResult) \<times> registry \<times> string list" where
  "executeTool now duration reply toolId st =
     (case map_of (tools st) toolId of
        None \<Rightarrow>
          (Inl (ToolNotFound toolId), updateToolStatistics now toolId duration False st, [])
      | Some e \<Rightarrow>
          if \<not> isAvailable e
          then (Inl (ToolNotAvailable toolId),
                updateToolStatistics now toolId duration False st, [])
          else (case reply of
                  Responds r \<Rightarrow>
                    (Inr r, updateToolStatistics now toolId duration True st, [toolId])
                | Throws msg \<Rightarrow>
                    (Inl (RemoteError msg),
                     updateToolStatistics now toolId duration False st, [toolId])))"

text \<open>A run of calls of \<open>executeTool\<close> for one tool, with no discovery pass in between.\<close>

fun executeTools :: "(nat \<times> rat \<times> axios_post) list \<Rightarrow> string \<Rightarrow> registry \<Rightarrow> registry" where
  "executeTools [] toolId st = st"
| "executeTools ((now, duration, reply) # calls) toolId st =
     executeTools calls toolId (fst (snd (executeTool now duration reply toolId st)))"

subsection \<open>The statistics as the specification words them\<close>

definition responded :: "axios_post \<Rightarrow> bool" where
  "responded reply = (case reply of Responds r \<Rightarrow> True | Throws msg \<Rightarrow> False)"

text \<open>\<open>successRate = M / N\<close>: the calls that succeeded over all calls.\<close>

definition spec_successRate :: "axios_post list \<Rightarrow> rat" where
  "spec_successRate replies =
     of_nat (length (filter responded replies)) / of_nat (length replies)"

text \<open>The two-point running average: \<open>avg\<^sub>1 = d\<^sub>1\<close>, \<open>avg\<^sub>k = (avg\<^sub>k\<^sub>-\<^sub>1 + d\<^sub>k) / 2\<close>.\<close>

fun spec_runningAverage :: "rat list \<Rightarrow> rat" where
  "spec_runningAverage [] = 0"
| "spec_runningAverage (d # ds) = foldl (\<lambda>avg d. (avg + d) / 2) d ds"

subsection \<open>The representation of the two maps\<close>

text \<open>
  Each key of the two maps occurs once (they are \<open>Map\<close>s) and is the id of its value, as
  every \<open>set\<close> of the registry has it.
\<close>

definition keyedById :: "registry \<Rightarrow> bool" where
  "keyedById st =
     (distinct (map fst (tools st)) \<and> list_all (\<lambda>p. fst p = entry_id (snd p)) (tools st) \<and>
      distinct (map fst (servers st)) \<and> list_all (\<lambda>p. fst p = srv_id (snd p)) (servers st))"

section \<open>The workflow orchestrator (WorkflowOrchestrator.ts)\<close>

record retryPolicy =
  maxRetries :: nat
  backoffMs :: nat
  exponentialBackoff :: bool

record WorkflowStep =
  step_id :: string
  step_toolName :: string
  arguments :: json
  step_dependencies :: "string list"
  condition :: "string option"
  onSuccess :: "string option"
  onError :: "string option"
  timeout :: nat
  step_retryPolicy :: "retryPolicy option"

record Workflow =
  wf_id :: string
  wf_name :: string
  wf_description :: string
  steps :: "WorkflowStep list"
  wf_metadata :: "json option"
  wf_version :: string
  createdAt :: string
  updatedAt :: string

datatype executionStatus = pending | running | completed | failed | cancelled

record WorkflowExecution =
  exec_id :: string
  exec_workflowId :: string
  exec_sessionId :: string
  status :: executionStatus
  currentStep :: "string option"
  startTime :: string
  endTime :: "string option"
  results :: "ToolExecutionResult list"
  errors :: "string list"
  exec_metadata :: "json option"

datatype executionStrategy = sequential | parallel | adaptive

datatype errorHandling = strict | lenient | skip

record constraints =
  maxExecutionTime :: "nat option"
  maxConcurrentTools :: nat
  allowedCategories :: "string list option"
  forbiddenTools :: "string list"

record preferences =
  preferredTools :: "string list"
  strategy :: executionStrategy
  onStepError :: errorHandling

record OrchestrationContext =
  ctx_sessionId :: string
  userGoal :: string
  availableTools :: "string list"
  executionHistory :: "ToolExecutionResult list option"
  ctx_constraints :: "constraints option"
  ctx_preferences :: "preferences option"

record orchestrator =
  activeExecutions :: "(string \<times> WorkflowExecution) list"
  orch_isInitialized :: bool

definition new_orchestrator :: orchestrator where
  "new_orchestrator = \<lparr>activeExecutions = [], orch_isInitialized = False\<rparr>"

definition orch_initialize :: "orchestrator \<Rightarrow> orchestrator" where
  "orch_initialize st = (if orch_isInitialized st then st else st\<lparr>orch_isInitialized := True\<rparr>)"

text \<open>The decimal digits of a number, as a template literal prints them.\<close>

fun decimal :: "nat \<Rightarrow> string" where
  "decimal n =
     (if n < 10 then [char_of (48 + n)] else decimal (n div 10) @ [char_of (48 + n mod 10)])"

declare decimal.simps [simp del]

text \<open>
  \<open>generateExecutionId\<close>: \<open>now\<close> is the clock reading and \<open>rnd\<close> the base-36 digits that
  \<open>Math.random().toString(36).substr(2, 9)\<close> gives.
\<close>

definition generateExecutionId :: "nat \<Rightarrow> string \<Rightarrow> string" where
  "generateExecutionId now rnd = ''wf_'' @ decimal now @ ''_'' @ rnd"

text \<open>
  \<open>executeWorkflow\<close>: \<open>t1\<close> and \<open>t2\<close> are the two readings \<open>new Date().toISOString()\<close>.
  The function builds the record and returns it. It reads neither the steps of the workflow
  nor the tool registry, and it does not write \<open>activeExecutions\<close>. The second component
  lists the tool executions that it dispatches to the registry, in the order of the
  dispatch; the third is the orchestrator afterwards.
\<close>

definition executeWorkflow ::
  "nat \<Rightarrow> string \<Rightarrow> string \<Rightarrow> string \<Rightarrow> Workflow \<Rightarrow> OrchestrationContext \<Rightarrow> orchestrator \<Rightarrow>
   WorkflowExecution \<times> (WorkflowStep \<times> ToolExecutionResult) list \<times> orchestrator" where
  "executeWorkflow now rnd t1 t2 workflow context st =
     (let executionId = generateExecutionId now rnd;
          execution =
            \<lparr>exec_id = executionId,
             exec_workflowId = (if wf_id workflow = [] then ''unknown'' else wf_id workflow),
             exec_sessionId = ctx_sessionId context,
             status = completed,
             currentStep = None,
             startTime = t1,
             endTime = Some t2,
             results = [],
             errors = [],
             exec_metadata =
               (case executionHistory context of
                  None \<Rightarrow> None
                | Some h \<Rightarrow> Some (JObj [(''historyCount'', JNum (of_nat (length h)))]))\<rparr>
      in (execution, [], st))"

definition getActiveExecutions :: "orchestrator \<Rightarrow> WorkflowExecution list" where
  "getActiveExecutions st = map snd (activeExecutions st)"

definition getExecution :: "orchestrator \<Rightarrow> string \<Rightarrow> WorkflowExecution option" where
  "getExecution st executionId = map_of (activeExecutions st) executionId"

definition cancelExecution :: "orchestrator \<Rightarrow> string \<Rightarrow> bool \<times> orchestrator" where
  "cancelExecution st executionId =
     (case map_of (activeExecutions st) executionId of
        None \<Rightarrow> (False, st)
      | Some execution \<Rightarrow>
          (True, st\<lparr>activeExecutions := AList.delete executionId (activeExecutions st)\<rparr>))"

text \<open>
  The single-tool execution of the orchestrator hands the call to the registry and passes
  on its result or its error; the orchestrator's own state stays as it is.
\<close>

definition orch_executeTool ::
  "nat \<Rightarrow> rat \<Rightarrow> axios_post \<Rightarrow> string \<Rightarrow> orchestrator \<times> registry \<Rightarrow>
   (exec_error + ToolExecutionResult) \<times> (orchestrator \<times> registry)" where
  "orch_executeTool now duration reply toolId s =
     (case executeTool now duration reply toolId (snd s) of
        (r, reg, requests) \<Rightarrow> (r, (fst s, reg)))"

text \<open>
  The states of the orchestrator that its public methods reach from a new instance.
  \<open>executeWorkflow\<close> and the single-tool execution give back the state they were given.
\<close>

inductive reachable :: "orchestrator \<Rightarrow> bool" where
  new: "reachable new_orchestrator"
| initialized: "reachable st \<Longrightarrow> reachable (orch_initialize st)"
| executed: "reachable st \<Longrightarrow> reachable (snd (snd (executeWorkflow now rnd t1 t2 workflow context st)))"
| tool_executed: "reachable st \<Longrightarrow> reachable (fst (snd (orch_executeTool now d reply toolId (st, reg))))"
| cancelled: "reachable st \<Longrightarrow> reachable (snd (cancelExecution st executionId))"

subsection \<open>Workflows that form a directed acyclic graph\<close>

text \<open>\<open>(a, b)\<close>: the step with id \<open>b\<close> declares the step id \<open>a\<close> among its dependencies.\<close>

definition dependsOn :: "Workflow \<Rightarrow> (string \<times> string) set" where
  "dependsOn workflow =
     {(a, b). \<exists>s \<in> set (steps workflow). step_id s = b \<and> a \<in> set (step_dependencies s)}"

definition validDag :: "Workflow \<Rightarrow> bool" where
  "validDag workflow =
     (distinct (map step_id (steps workflow)) \<and>
      (\<forall>s \<in> set (steps workflow). set (step_dependencies s) \<subseteq> step_id ` set (steps workflow)) \<and>
      acyclic (dependsOn workflow))"

section \<open>Concrete inputs\<close>

text \<open>A tool as the remote plane reports it, and the same tool with a new description.\<close>

definition echo_tool :: MCPTool where
  "echo_tool =
     \<lparr>name = ''echo'', description = ''Repeats the input'', inputSchema = JObj [],
      serverId = Some ''s1'', version = Some ''1.0.0''\<rparr>"

definition echo_tool_v2 :: MCPTool where
  "echo_tool_v2 = echo_tool\<lparr>description := ''Repeats the input twice''\<rparr>"

definition search_tasks_tool :: MCPTool where
  "search_tasks_tool =
     \<lparr>name = ''Search_Tasks'', description = ''Finds the tasks of a project'',
      inputSchema = JObj [], serverId = None, version = None\<rparr>"

text \<open>An element of a tools array that has no name, and a server info.\<close>

definition no_name_item :: tool_item where
  "no_name_item =
     Nameless \<lparr>n_description = ''no name'', n_inputSchema = JObj [], n_serverId = Some ''s1'',
               n_version = None\<rparr>"

definition srv1 :: MCPServerInfo where
  "srv1 =
     \<lparr>srv_id = ''s1'', srv_name = ''server one'', srv_version = ''1.0.0'',
      protocolVersion = ''2024-11-05'', url = None, lastSeen = ''2025-09-06T00:00:00.000Z'',
      discoveredAt = None, srv_lastUpdated = None\<rparr>"

text \<open>The entry that the first discovery of \<open>echo_tool\<close> at time 100 creates.\<close>

definition echo_entry :: ToolRegistryEntry where
  "echo_entry =
     \<lparr>entry_id = ''s1:echo'', tool = echo_tool, entry_serverId = ''s1'',
      category = ''general'', tags = [], isAvailable = True, lastExecuted = None,
      executionCount = 0, averageExecutionTime = 0, successRate = 1, registeredAt = 100,
      lastUpdated = 100, dependencies = [], conflictsWith = [],
      estimatedExecutionTime = None, resourceReqs = None, entry_healthStatus = healthy\<rparr>"

definition echo_registry :: registry where
  "echo_registry =
     \<lparr>tools = [(''s1:echo'', echo_entry)], servers = [], isInitialized = False,
      saveTimer = True\<rparr>"

definition ok_result :: ToolExecutionResult where
  "ok_result =
     \<lparr>success = True, result = Some (JObj [(''echoed'', JBool True)]), error = None,
      executionTime = 12, toolName = ''s1:echo'', sessionId = ''s-test'', workflowId = None,
      timestamp = ''2025-09-06T00:00:00.000Z''\<rparr>"

text \<open>A workflow of two steps, the second depending on the first, and a context.\<close>

definition step_A :: WorkflowStep where
  "step_A =
     \<lparr>step_id = ''A'', step_toolName = ''s1:fetch'', arguments = JObj [],
      step_dependencies = [], condition = None, onSuccess = None, onError = None,
      timeout = 30000, step_retryPolicy = None\<rparr>"

definition step_B :: WorkflowStep where
  "step_B =
     \<lparr>step_id = ''B'', step_toolName = ''s1:echo'', arguments = JObj [],
      step_dependencies = [''A''], condition = None, onSuccess = None, onError = None,
      timeout = 30000, step_retryPolicy = None\<rparr>"

definition two_step_workflow :: Workflow where
  "two_step_workflow =
     \<lparr>wf_id = ''wf1'', wf_name = ''Test WF'', wf_description = ''desc'',
      steps = [step_A, step_B], wf_metadata = None, wf_version = ''1.0.0'',
      createdAt = ''2025-09-06T00:00:00.000Z'', updatedAt = ''2025-09-06T00:00:00.000Z''\<rparr>"

definition test_context :: OrchestrationContext where
  "test_context =
     \<lparr>ctx_sessionId = ''s1'', userGoal = ''goal'', availableTools = [],
      executionHistory = Some [], ctx_constraints = None, ctx_preferences = None\<rparr>"

section \<open>Properties of the categorisation\<close>

lemma includes_iff: "includes_str s sub \<longleftrightarrow> (\<exists>pre post. s = pre @ sub @ post)"
proof (induction s)
  case Nil
  then show ?case by auto
next
  case (Cons c cs)
  show ?case
  proof
    assume "includes_str (c # cs) sub"
    then consider "prefix sub (c # cs)" | "includes_str cs sub" by auto
    then show "\<exists>pre post. c # cs = pre @ sub @ post"
    proof cases
      case 1
      then obtain post where "c # cs = sub @ post" by (auto simp: prefix_def)
      then have "c # cs = [] @ sub @ post" by simp
      then show ?thesis by blast
    next
      case 2
      with Cons.IH obtain pre post where "cs = pre @ sub @ post" by blast
      then have "c # cs = (c # pre) @ sub @ post" by simp
      then show ?thesis by blast
    qed
  next
    assume "\<exists>pre post. c # cs = pre @ sub @ post"
    then obtain pre post where eq: "c # cs = pre @ sub @ post" by blast
    show "includes_str (c # cs) sub"
    proof (cases pre)
      case Nil
      with eq have "prefix sub (c # cs)" by (simp add: prefix_def)
      then show ?thesis by simp
    next
      case (Cons p ps)
      with eq have "cs = ps @ sub @ post" by simp
      with Cons.IH have "includes_str cs sub" by blast
      then show ?thesis by simp
    qed
  qed
qed

text \<open>
  C8. The category that \<open>categorizeTool\<close> assigns is the first row of the priority table
  (rag, project-management, data, development, communication, file-management) one of whose
  keywords occurs case-insensitively in the tool's name or description, and \<open>general\<close> when
  no row matches; the function returns exactly one category, and it is the category of the
  entry that \<open>updateTools\<close> registers for the tool.
\<close>

theorem categorizeTool_first_match:
  "categorizeTool t = spec_category t \<and>
   category (registryEntry now t existing) = spec_category t"
proof -
  have "categorizeTool t = spec_category t"
    by (simp add: categorizeTool_def spec_category_def spec_category_table_def
        spec_matches_def occurs_ci_def Let_def)
  then show ?thesis
    by (simp add: registryEntry_def)
qed

theorem categorizeTool_first_match_witness:
  "categorizeTool search_tasks_tool = ''rag'' \<and> spec_category search_tasks_tool = ''rag'' \<and>
   category (registryEntry 100 search_tasks_tool None) = ''rag''"
proof -
  have "categorizeTool search_tasks_tool = ''rag''"
    by code_simp
  with categorizeTool_first_match [of search_tasks_tool 100 None] show ?thesis by simp
qed

section \<open>Evaluation of the concrete inputs\<close>

lemma generateToolId_echo [simp]:
  "generateToolId echo_tool = ''s1:echo''" "generateToolId echo_tool_v2 = ''s1:echo''"
  by (simp_all add: generateToolId_def serverId_or_unknown_def echo_tool_def echo_tool_v2_def)

lemma categorizeTool_echo: "categorizeTool echo_tool = ''general''"
  by (simp add: categorizeTool_def echo_tool_def toLowerCase_def lower_char_def)

lemma generateTags_echo: "generateTags echo_tool = []"
  by (simp add: generateTags_def echo_tool_def toLowerCase_def lower_char_def)

lemma registryEntry_echo: "registryEntry 100 echo_tool None = echo_entry"
  by (simp add: registryEntry_def echo_entry_def categorizeTool_echo generateTags_echo)
     (simp add: serverId_or_unknown_def echo_tool_def)

lemma first_discovery_echo: "updateTools 100 [echo_tool] new_registry = echo_registry"
  by (simp add: updateTools_def upsertTool_def markMissing_def markUnavailable_def
      new_registry_def echo_registry_def saveRegistryDebounced_def registryEntry_echo)

section \<open>Frame lemmas of a discovery pass\<close>

lemma map_of_markUnavailable:
  "map_of (map (markUnavailable now u) xs) k =
     map_option (\<lambda>e. if k \<notin> set u \<and> isAvailable e
                      then e\<lparr>isAvailable := False, lastUpdated := now\<rparr> else e)
       (map_of xs k)"
  by (induction xs) (auto simp: markUnavailable_def)

lemma tools_upsertTool_other:
  "k \<noteq> generateToolId t \<Longrightarrow> map_of (tools (upsertTool now st t)) k = map_of (tools st) k"
  by (simp add: upsertTool_def Let_def saveRegistryDebounced_def update_conv')

lemma tools_foldl_upsertTool_other:
  "k \<notin> generateToolId ` set ts \<Longrightarrow>
     map_of (tools (foldl (upsertTool now) st ts)) k = map_of (tools st) k"
  by (induction ts arbitrary: st) (simp_all add: tools_upsertTool_other)

lemma servers_upsertTool: "servers (upsertTool now st t) = servers st"
  by (simp add: upsertTool_def Let_def saveRegistryDebounced_def)

lemma servers_updateTools: "servers (updateTools now ts st) = servers st"
proof -
  have "servers (foldl (upsertTool now) st ts) = servers st"
    by (induction ts arbitrary: st) (simp_all add: servers_upsertTool)
  then show ?thesis by (simp add: updateTools_def markMissing_def)
qed

lemma tools_updateServer: "tools (updateServer now st s) = tools st"
  by (simp add: updateServer_def Let_def saveRegistryDebounced_def)

lemma tools_updateServers: "tools (updateServers now ss st) = tools st"
  unfolding updateServers_def
  by (induction ss arbitrary: st) (simp_all add: tools_updateServer)

lemma dom_upsertTool:
  "map_of (tools st) k \<noteq> None \<Longrightarrow> map_of (tools (upsertTool now st t)) k \<noteq> None"
  by (simp add: upsertTool_def Let_def saveRegistryDebounced_def update_conv')

lemma dom_foldl_upsertTool:
  "map_of (tools st) k \<noteq> None \<Longrightarrow> map_of (tools (foldl (upsertTool now) st ts)) k \<noteq> None"
proof (induction ts arbitrary: st)
  case Nil
  then show ?case by simp
next
  case (Cons t ts)
  from Cons.prems have "map_of (tools (upsertTool now st t)) k \<noteq> None"
    by (rule dom_upsertTool)
  from Cons.IH [OF this] show ?case by simp
qed

lemma dom_updateTools:
  "map_of (tools st) k \<noteq> None \<Longrightarrow> map_of (tools (updateTools now ts st)) k \<noteq> None"
  using dom_foldl_upsertTool [of st k now ts]
  by (auto simp add: updateTools_def markMissing_def map_of_markUnavailable)

lemma updateTools_missing:
  assumes "map_of (tools st) k = Some e" and "k \<notin> generateToolId ` set ts"
  shows "map_of (tools (updateTools now ts st)) k =
           Some (if isAvailable e then e\<lparr>isAvailable := False, lastUpdated := now\<rparr> else e)"
  using assms tools_foldl_upsertTool_other [of k ts now st]
  by (simp add: updateTools_def markMissing_def map_of_markUnavailable)

lemma dom_markMissing:
  "map_of (tools st) k \<noteq> None \<Longrightarrow> map_of (tools (markMissing now u st)) k \<noteq> None"
  by (auto simp add: markMissing_def map_of_markUnavailable)

subsection \<open>Arrays of elements of the declared types\<close>

lemma updateServersArray_typed:
  "updateServersArray now (map Some ss) st = Inr (updateServers now ss st)"
  unfolding updateServers_def
  by (induction ss arbitrary: st) simp_all

lemma upsertItems_typed:
  "upsertItems now (map Tool ts) (st, u) =
     Inr (foldl (upsertTool now) st ts, u @ map generateToolId ts)"
  by (induction ts arbitrary: st u) simp_all

lemma updateToolsArray_typed:
  "updateToolsArray now (map Tool ts) st = Inr (updateTools now ts st)"
  by (simp add: updateToolsArray_def upsertItems_typed updateTools_def)

lemma discoverTools_typed:
  "discoverTools now
     (Resolves \<lparr>p_tools = Some (map Tool ts), p_servers = map_option (map Some) ss\<rparr>) st =
   Inr (saveRegistryDebounced
          (updateTools now ts
             (case ss of None \<Rightarrow> st | Some srvs \<Rightarrow> updateServers now srvs st)))"
  by (cases ss)
     (simp_all add: discoverTools_def discoverTools_try_def updateServersArray_typed
       updateToolsArray_typed)

subsection \<open>Arrays with elements of any kind\<close>

lemma tools_updateServersArray:
  "case_sum (\<lambda>s. tools s = tools st) (\<lambda>s. tools s = tools st) (updateServersArray now ss st)"
proof (induction ss arbitrary: st)
  case Nil
  then show ?case by simp
next
  case (Cons item ss)
  show ?case
  proof (cases item)
    case None
    then show ?thesis by simp
  next
    case (Some server)
    with Cons.IH [of "updateServer now st server"] show ?thesis
      by (simp add: tools_updateServer split: sum.splits)
  qed
qed

lemma dom_upsertItems:
  assumes "map_of (tools st) k \<noteq> None"
  shows "case_sum (\<lambda>s. map_of (tools s) k \<noteq> None) (\<lambda>r. map_of (tools (fst r)) k \<noteq> None)
           (upsertItems now items (st, u))"
  using assms
proof (induction items arbitrary: st u)
  case Nil
  then show ?case by simp
next
  case (Cons item items)
  show ?case
  proof (cases item)
    case (Tool t)
    from Cons.prems have "map_of (tools (upsertTool now st t)) k \<noteq> None"
      by (rule dom_upsertTool)
    from Cons.IH [OF this] Tool show ?thesis by simp
  next
    case (Nameless n)
    with Cons.IH [OF Cons.prems] Cons.prems show ?thesis
      by (simp add: Let_def)
  next
    case NullItem
    with Cons.prems show ?thesis by simp
  qed
qed

lemma dom_updateToolsArray:
  assumes "map_of (tools st) k \<noteq> None"
  shows "case_sum (\<lambda>s. map_of (tools s) k \<noteq> None) (\<lambda>s. map_of (tools s) k \<noteq> None)
           (updateToolsArray now items st)"
proof (cases "upsertItems now items (st, [])")
  case (Inl st1)
  with dom_upsertItems [OF assms, of now items "[]"] show ?thesis
    by (simp add: updateToolsArray_def)
next
  case (Inr r)
  with dom_upsertItems [OF assms, of now items "[]"]
  have "map_of (tools (fst r)) k \<noteq> None" by simp
  from dom_markMissing [OF this, of now "snd r"] Inr show ?thesis
    by (cases r) (simp add: updateToolsArray_def)
qed

lemma discoverTools_resolves: "\<exists>st'. discoverTools now response st = Inr st'"
  by (simp add: discoverTools_def split: sum.split prod.split)

lemma dom_discoverTools:
  assumes "map_of (tools st) k \<noteq> None" and "discoverTools now response st = Inr st'"
  shows "map_of (tools st') k \<noteq> None"
proof (cases response)
  case (Rejects err)
  with assms show ?thesis
    by (simp add: discoverTools_def discoverTools_try_def)
next
  case (Resolves body)
  show ?thesis
  proof (cases "p_tools body")
    case None
    with Resolves assms show ?thesis
      by (simp add: discoverTools_def discoverTools_try_def)
  next
    case (Some items)
    define r where
      "r = (case p_servers body of None \<Rightarrow> Inr st | Some ss \<Rightarrow> updateServersArray now ss st)"
    have r: "case_sum (\<lambda>s. tools s = tools st) (\<lambda>s. tools s = tools st) r"
      using tools_updateServersArray [of st now]
      by (simp add: r_def split: option.split)
    show ?thesis
    proof (cases r)
      case (Inl st1)
      with r have "tools st1 = tools st" by simp
      moreover have "st' = st1"
        using assms(2) Resolves Some Inl
        by (simp add: discoverTools_def discoverTools_try_def r_def [symmetric])
      ultimately show ?thesis using assms(1) by simp
    next
      case (Inr st1)
      with r assms(1) have "map_of (tools st1) k \<noteq> None" by simp
      from dom_updateToolsArray [OF this, of now items] assms(2) Resolves Some Inr
      show ?thesis
        by (auto simp add: discoverTools_def discoverTools_try_def r_def [symmetric]
            saveRegistryDebounced_def split: sum.splits)
    qed
  qed
qed

section \<open>Discovery: missing tools and failures\<close>

text \<open>
  C5. A discovery pass never removes an entry. When the pass returns a tool list and the id
  of a previously known entry is not among the ids generated for that list, the entry is
  still found by \<open>getTool\<close> under its id and has \<open>isAvailable = false\<close> afterwards; it is
  the old entry, marked unavailable (and stamped, if it was available before). The first part
  holds for every response, the second for every response whose arrays hold tools and
  server infos.
\<close>

theorem missing_tool_unavailable_not_removed:
  assumes "getTool st k = Some e"
  shows "\<exists>st'. discoverTools now response st = Inr st' \<and> getTool st' k \<noteq> None \<and>
           (\<forall>ts ss. response = Resolves \<lparr>p_tools = Some (map Tool ts),
                                          p_servers = map_option (map Some) ss\<rparr> \<and>
                     k \<notin> set (map generateToolId ts) \<longrightarrow>
                (\<exists>e'. getTool st' k = Some e' \<and> \<not> isAvailable e' \<and>
                   e' = (if isAvailable e
                         then e\<lparr>isAvailable := False, lastUpdated := now\<rparr> else e)))"
proof -
  from discoverTools_resolves obtain st' where run: "discoverTools now response st = Inr st'"
    by blast
  from assms have "map_of (tools st) k \<noteq> None"
    by (simp add: getTool_def)
  from dom_discoverTools [OF this run] have kept: "getTool st' k \<noteq> None"
    by (simp add: getTool_def)
  have gone: "getTool st' k =
      Some (if isAvailable e then e\<lparr>isAvailable := False, lastUpdated := now\<rparr> else e)"
    if typed: "response = Resolves \<lparr>p_tools = Some (map Tool ts),
                                    p_servers = map_option (map Some) ss\<rparr>"
      and missing: "k \<notin> set (map generateToolId ts)" for ts ss
  proof -
    define st1 where
      "st1 = (case ss of None \<Rightarrow> st | Some srvs \<Rightarrow> updateServers now srvs st)"
    have "tools st1 = tools st"
      by (simp add: st1_def tools_updateServers split: option.split)
    with assms have old: "map_of (tools st1) k = Some e"
      by (simp add: getTool_def)
    from run typed have "st' = saveRegistryDebounced (updateTools now ts st1)"
      by (simp add: discoverTools_typed st1_def)
    then have "getTool st' k = map_of (tools (updateTools now ts st1)) k"
      by (simp add: getTool_def saveRegistryDebounced_def)
    with updateTools_missing [OF old, of ts now] missing show ?thesis by simp
  qed
  show ?thesis
    using run kept gone by auto
qed

theorem missing_tool_unavailable_not_removed_witness:
  "getTool echo_registry ''s1:echo'' = Some echo_entry \<and>
   (\<exists>st'. discoverTools 200 (Resolves \<lparr>p_tools = Some [], p_servers = None\<rparr>) echo_registry =
            Inr st' \<and>
          getTool st' ''s1:echo'' =
            Some (echo_entry\<lparr>isAvailable := False, lastUpdated := 200\<rparr>))"
proof -
  have g: "getTool echo_registry ''s1:echo'' = Some echo_entry"
    by (simp add: getTool_def echo_registry_def)
  have a: "isAvailable echo_entry"
    by (simp add: echo_entry_def)
  have "\<exists>st'. discoverTools 200 (Resolves \<lparr>p_tools = Some [], p_servers = None\<rparr>)
            echo_registry = Inr st' \<and>
          getTool st' ''s1:echo'' =
            Some (echo_entry\<lparr>isAvailable := False, lastUpdated := 200\<rparr>)"
    using missing_tool_unavailable_not_removed
      [OF g, of 200 "Resolves \<lparr>p_tools = Some [], p_servers = None\<rparr>"]
  proof (elim exE conjE)
    fix st'
    assume r: "discoverTools 200 (Resolves \<lparr>p_tools = Some [], p_servers = None\<rparr>)
                 echo_registry = Inr st'"
    assume u: "\<forall>ts ss. Resolves \<lparr>p_tools = Some [], p_servers = None\<rparr> =
                Resolves \<lparr>p_tools = Some (map Tool ts),
                          p_servers = map_option (map Some) ss\<rparr> \<and>
              ''s1:echo'' \<notin> set (map generateToolId ts) \<longrightarrow>
              (\<exists>e'. getTool st' ''s1:echo'' = Some e' \<and> \<not> isAvailable e' \<and>
                 e' = (if isAvailable echo_entry
                       then echo_entry\<lparr>isAvailable := False, lastUpdated := 200\<rparr>
                       else echo_entry))"
    have "Resolves \<lparr>p_tools = Some [], p_servers = None\<rparr> =
            Resolves \<lparr>p_tools = Some (map Tool []), p_servers = map_option (map Some) None\<rparr> \<and>
          ''s1:echo'' \<notin> set (map generateToolId [])"
      by simp
    then have "\<exists>e'. getTool st' ''s1:echo'' = Some e' \<and> \<not> isAvailable e' \<and>
                 e' = (if isAvailable echo_entry
                       then echo_entry\<lparr>isAvailable := False, lastUpdated := 200\<rparr>
                       else echo_entry)"
      by (rule u [rule_format, of "[]" None])
    with a have
      "getTool st' ''s1:echo'' = Some (echo_entry\<lparr>isAvailable := False, lastUpdated := 200\<rparr>)"
      by simp
    with r show ?thesis
      by (intro exI [of _ st'] conjI)
  qed
  with g show ?thesis
    by (rule conjI)
qed

lemma updateServer_srv1:
  "updateServer 100 new_registry srv1 =
     (\<lparr>tools = [],
          servers = [(''s1'', srv1\<lparr>discoveredAt := Some 100, srv_lastUpdated := Some 100\<rparr>)],
          isInitialized = False, saveTimer = True\<rparr>)"
  by (simp add: updateServer_def new_registry_def saveRegistryDebounced_def srv1_def)

lemma upsertTool_echo_after_srv1:
  "upsertTool 100
     \<lparr>tools = [],
      servers = [(''s1'', srv1\<lparr>discoveredAt := Some 100, srv_lastUpdated := Some 100\<rparr>)],
      isInitialized = False, saveTimer = True\<rparr> echo_tool =
   \<lparr>tools = [(''s1:echo'', echo_entry)],
    servers = [(''s1'', srv1\<lparr>discoveredAt := Some 100, srv_lastUpdated := Some 100\<rparr>)],
    isInitialized = False, saveTimer = True\<rparr>"
  by (simp add: upsertTool_def saveRegistryDebounced_def registryEntry_echo)

lemma upsertItems_no_name:
  "map_of (tools st) ''s1:undefined'' = None \<Longrightarrow>
     upsertItems now (no_name_item # items) (st, u) = Inl st"
  by (simp add: no_name_item_def generateToolId_def serverId_or_unknown_def asTool_def)

lemma discoverTools_malformed_element:
  "discoverTools_try 100
     (Resolves \<lparr>p_tools = Some [Tool echo_tool, no_name_item], p_servers = Some [Some srv1]\<rparr>)
     new_registry =
   Inl (TypeError,
        \<lparr>tools = [(''s1:echo'', echo_entry)],
         servers = [(''s1'', srv1\<lparr>discoveredAt := Some 100, srv_lastUpdated := Some 100\<rparr>)],
         isInitialized = False, saveTimer = True\<rparr>)"
  by (simp add: discoverTools_try_def updateServer_srv1 updateToolsArray_def
      upsertTool_echo_after_srv1 upsertItems_no_name)

text \<open>
  C2 as it is worded fails for one kind of failure. A response whose tools array holds an
  element that is no tool makes the pass throw at that element, after \<open>updateServers\<close> and
  the \<open>tools.set\<close> of the elements before it; the \<open>catch\<close> block swallows the error all the
  same, and both maps are no longer what they were.
\<close>

theorem discovery_malformed_element_changes_maps:
  "discoverTools_try 100
     (Resolves \<lparr>p_tools = Some [Tool echo_tool, no_name_item], p_servers = Some [Some srv1]\<rparr>)
     new_registry =
   Inl (TypeError,
        \<lparr>tools = [(''s1:echo'', echo_entry)],
         servers = [(''s1'', srv1\<lparr>discoveredAt := Some 100, srv_lastUpdated := Some 100\<rparr>)],
         isInitialized = False, saveTimer = True\<rparr>) \<and>
   discoverTools 100
     (Resolves \<lparr>p_tools = Some [Tool echo_tool, no_name_item], p_servers = Some [Some srv1]\<rparr>)
     new_registry =
   Inr \<lparr>tools = [(''s1:echo'', echo_entry)],
        servers = [(''s1'', srv1\<lparr>discoveredAt := Some 100, srv_lastUpdated := Some 100\<rparr>)],
        isInitialized = False, saveTimer = True\<rparr> \<and>
   tools new_registry = [] \<and> servers new_registry = []"
  unfolding discoverTools_def discoverTools_malformed_element
  by (simp add: new_registry_def)

text \<open>
  C2, amended. For every response, a failure of any kind included, \<open>discoverTools\<close> and
  \<open>initialize\<close> return normally. When the request is rejected (connection refused, HTTP
  404, any other network error) or the response carries no array of tools,
  \<open>discoverTools\<close> leaves the registry, so both maps, as it was, and \<open>initialize\<close> returns
  with the maps that the load of the snapshot left.
\<close>

theorem discovery_failure_swallowed:
  "(\<exists>st'. discoverTools now response st = Inr st') \<and>
   (\<exists>st'. initialize now file response st = Inr st') \<and>
   (response = Rejects err \<or> (response = Resolves body \<and> p_tools body = None) \<longrightarrow>
      discoverTools now response st = Inr st \<and>
      initialize now file response st =
        Inr (if isInitialized st then st
             else (case loadPersistedRegistry file st of Inl (e, s) \<Rightarrow> s | Inr s \<Rightarrow> s)
                    \<lparr>isInitialized := True\<rparr>))"
proof (intro conjI impI)
  show "\<exists>st'. discoverTools now response st = Inr st'"
    by (rule discoverTools_resolves)
  show "\<exists>st'. initialize now file response st = Inr st'"
  proof (cases "isInitialized st")
    case True
    then show ?thesis by (simp add: initialize_def)
  next
    case False
    define st1 where
      "st1 = (case loadPersistedRegistry file st of Inl (e, s) \<Rightarrow> s | Inr s \<Rightarrow> s)"
    from discoverTools_resolves obtain st2 where "discoverTools now response st1 = Inr st2"
      by blast
    with False show ?thesis
      by (simp add: initialize_def st1_def [symmetric])
  qed
next
  assume failure: "response = Rejects err \<or> (response = Resolves body \<and> p_tools body = None)"
  have same: "discoverTools now response s = Inr s" for s
    using failure by (auto simp add: discoverTools_def discoverTools_try_def)
  show "discoverTools now response st = Inr st"
    by (rule same)
  show "initialize now file response st =
        Inr (if isInitialized st then st
             else (case loadPersistedRegistry file st of Inl (e, s) \<Rightarrow> s | Inr s \<Rightarrow> s)
                    \<lparr>isInitialized := True\<rparr>)"
    by (simp add: initialize_def Let_def same)
qed

theorem discovery_failure_swallowed_witness:
  "discoverTools 100 (Rejects (HttpStatus 404)) new_registry = Inr new_registry \<and>
   initialize 100 ENOENT (Rejects (HttpStatus 404)) new_registry =
     Inr (new_registry\<lparr>isInitialized := True\<rparr>) \<and>
   listTools (new_registry\<lparr>isInitialized := True\<rparr>) = []"
  using discovery_failure_swallowed
    [of 100 "Rejects (HttpStatus 404)" new_registry ENOENT "HttpStatus 404"
        "\<lparr>p_tools = None, p_servers = None\<rparr>"]
  by (simp add: loadPersistedRegistry_def new_registry_def listTools_def)

section \<open>Persistence round trip\<close>

lemma update_absent: "k \<notin> fst ` set al \<Longrightarrow> AList.update k v al = al @ [(k, v)]"
  by (induction al) auto

lemma foldl_update_rebuild:
  assumes "distinct (map fst xs)" and "list_all (\<lambda>p. fst p = key (snd p)) xs"
    and "fst ` set acc \<inter> fst ` set xs = {}"
  shows "foldl (\<lambda>m t. AList.update (key t) t m) acc (map snd xs) = acc @ xs"
  using assms
proof (induction xs arbitrary: acc)
  case Nil
  then show ?case by simp
next
  case (Cons p xs)
  obtain k v where p: "p = (k, v)" by (cases p)
  from Cons.prems p have kv: "k = key v" and fresh: "k \<notin> fst ` set acc"
    and rest: "distinct (map fst xs)" "list_all (\<lambda>p. fst p = key (snd p)) xs"
    and knew: "k \<notin> fst ` set xs"
    by auto
  have step: "AList.update (key v) v acc = acc @ [(k, v)]"
    using fresh kv by (simp add: update_absent)
  have disj: "fst ` set (acc @ [(k, v)]) \<inter> fst ` set xs = {}"
    using Cons.prems(3) knew p by auto
  show ?case
    using Cons.IH [OF rest disj] step p by simp
qed

lemma restoreTools_entries:
  "restoreTools (map (\<lambda>p. Some (snd p)) xs) st =
     Inr (st\<lparr>tools := foldl (\<lambda>m t. AList.update (entry_id t) t m) (tools st) (map snd xs)\<rparr>)"
  by (induction xs arbitrary: st) simp_all

lemma restoreServers_entries:
  "restoreServers (map (\<lambda>p. Some (snd p)) xs) st =
     Inr (st\<lparr>servers := foldl (\<lambda>m s. AList.update (srv_id s) s m) (servers st) (map snd xs)\<rparr>)"
  by (induction xs arbitrary: st) simp_all

text \<open>
  C7. For a registry whose map keys are the ids of their entries, \<open>saveRegistry\<close> produces a
  snapshot, and \<open>loadPersistedRegistry\<close> of that snapshot into an empty registry gives back
  the same registry entries and the same server infos, each under its id and in the same
  order.
\<close>

theorem persistence_round_trip:
  assumes "keyedById st"
  shows "\<exists>file st'. saveRegistry now None st = Inr file \<and>
           loadPersistedRegistry file new_registry = Inr st' \<and>
           tools st' = tools st \<and> servers st' = servers st \<and> listTools st' = listTools st"
proof -
  from assms have
    "foldl (\<lambda>m t. AList.update (entry_id t) t m) [] (map snd (tools st)) = [] @ tools st"
    and "foldl (\<lambda>m s. AList.update (srv_id s) s m) [] (map snd (servers st)) = [] @ servers st"
    unfolding keyedById_def by (simp_all add: foldl_update_rebuild del: append_Nil)
  then show ?thesis
    by (simp add: saveRegistry_def loadPersistedRegistry_def new_registry_def listTools_def
        restoreTools_entries restoreServers_entries)
qed

theorem persistence_round_trip_witness:
  "keyedById echo_registry \<and>
   (\<exists>file st'. saveRegistry 500 None echo_registry = Inr file \<and>
      loadPersistedRegistry file new_registry = Inr st' \<and>
      tools st' = [(''s1:echo'', echo_entry)] \<and> servers st' = [])"
proof -
  have k: "keyedById echo_registry"
    by (simp add: keyedById_def echo_registry_def echo_entry_def)
  from persistence_round_trip [OF k, of 500] obtain f st' where
    "saveRegistry 500 None echo_registry = Inr f"
    "loadPersistedRegistry f new_registry = Inr st'"
    "tools st' = tools echo_registry" "servers st' = servers echo_registry"
    by blast
  moreover have "tools echo_registry = [(''s1:echo'', echo_entry)]" "servers echo_registry = []"
    by (simp_all add: echo_registry_def)
  ultimately show ?thesis
    using k by auto
qed

subsection \<open>The keys stay the ids\<close>

text \<open>
  The hypothesis of the round trip holds in every state that the registry reaches from a new
  instance: each operation that writes a map keeps every key once and equal to the id of
  its value.
\<close>

lemma keyed_update:
  "list_all (\<lambda>p. fst p = key (snd p)) al \<Longrightarrow> key v = k \<Longrightarrow>
     list_all (\<lambda>p. fst p = key (snd p)) (AList.update k v al)"
  by (induction al) auto

lemma keyedById_new: "keyedById new_registry"
  by (simp add: keyedById_def new_registry_def)

lemma entry_id_registryEntry: "entry_id (registryEntry now t existing) = generateToolId t"
  by (simp add: registryEntry_def)

lemma keyedById_upsertTool: "keyedById st \<Longrightarrow> keyedById (upsertTool now st t)"
  by (simp add: keyedById_def upsertTool_def Let_def saveRegistryDebounced_def
      distinct_update keyed_update entry_id_registryEntry)

lemma keyedById_foldl_upsertTool:
  "keyedById st \<Longrightarrow> keyedById (foldl (upsertTool now) st ts)"
  by (induction ts arbitrary: st) (simp_all add: keyedById_upsertTool)

lemma keyedById_markMissing: "keyedById st \<Longrightarrow> keyedById (markMissing now u st)"
proof -
  have k: "fst \<circ> markUnavailable now u = fst"
    by (auto simp add: fun_eq_iff markUnavailable_def)
  have e: "fst (markUnavailable now u p) = fst p"
    "entry_id (snd (markUnavailable now u p)) = entry_id (snd p)" for p
    by (simp_all add: markUnavailable_def)
  assume "keyedById st"
  then show ?thesis
    by (simp add: keyedById_def markMissing_def k e list_all_iff)
qed

lemma keyedById_updateTools: "keyedById st \<Longrightarrow> keyedById (updateTools now ts st)"
  by (simp add: updateTools_def keyedById_markMissing keyedById_foldl_upsertTool)

lemma keyedById_updateServer: "keyedById st \<Longrightarrow> keyedById (updateServer now st s)"
  by (simp add: keyedById_def updateServer_def Let_def saveRegistryDebounced_def
      distinct_update keyed_update)

lemma keyedById_updateServers: "keyedById st \<Longrightarrow> keyedById (updateServers now ss st)"
  unfolding updateServers_def
  by (induction ss arbitrary: st) (simp_all add: keyedById_updateServer)

lemma keyedById_saveRegistryDebounced [simp]:
  "keyedById (saveRegistryDebounced st) = keyedById st"
  by (simp add: keyedById_def saveRegistryDebounced_def)

lemma keyedById_updateServersArray:
  "keyedById st \<Longrightarrow> case_sum keyedById keyedById (updateServersArray now ss st)"
proof (induction ss arbitrary: st)
  case Nil
  then show ?case by simp
next
  case (Cons item ss)
  show ?case
  proof (cases item)
    case None
    with Cons.prems show ?thesis by simp
  next
    case (Some server)
    from Cons.prems have "keyedById (updateServer now st server)"
      by (rule keyedById_updateServer)
    from Cons.IH [OF this] Some show ?thesis by simp
  qed
qed

lemma keyedById_upsertItems:
  "keyedById st \<Longrightarrow>
     case_sum keyedById (\<lambda>r. keyedById (fst r)) (upsertItems now items (st, u))"
proof (induction items arbitrary: st u)
  case Nil
  then show ?case by simp
next
  case (Cons item items)
  show ?case
  proof (cases item)
    case (Tool t)
    from Cons.prems have "keyedById (upsertTool now st t)"
      by (rule keyedById_upsertTool)
    from Cons.IH [OF this] Tool show ?thesis by simp
  next
    case (Nameless n)
    with Cons.IH [OF Cons.prems] Cons.prems show ?thesis
      by (simp add: Let_def)
  next
    case NullItem
    with Cons.prems show ?thesis by simp
  qed
qed

lemma keyedById_updateToolsArray:
  assumes "keyedById st"
  shows "case_sum keyedById keyedById (updateToolsArray now items st)"
  using keyedById_upsertItems [OF assms, of now items "[]"]
  by (auto simp add: updateToolsArray_def keyedById_markMissing split: sum.splits)

lemma keyedById_discoverTools:
  assumes "keyedById st" and "discoverTools now response st = Inr st'"
  shows "keyedById st'"
proof (cases response)
  case (Rejects err)
  with assms show ?thesis
    by (simp add: discoverTools_def discoverTools_try_def)
next
  case (Resolves body)
  show ?thesis
  proof (cases "p_tools body")
    case None
    with Resolves assms show ?thesis
      by (simp add: discoverTools_def discoverTools_try_def)
  next
    case (Some items)
    define r where
      "r = (case p_servers body of None \<Rightarrow> Inr st | Some ss \<Rightarrow> updateServersArray now ss st)"
    have r: "case_sum keyedById keyedById r"
      using keyedById_updateServersArray [OF assms(1), of now] assms(1)
      by (simp add: r_def split: option.split)
    show ?thesis
    proof (cases r)
      case (Inl st1)
      with r assms(2) Resolves Some show ?thesis
        by (simp add: discoverTools_def discoverTools_try_def r_def [symmetric])
    next
      case (Inr st1)
      with r have "keyedById st1" by simp
      from keyedById_updateToolsArray [OF this, of now items] assms(2) Resolves Some Inr
      show ?thesis
        by (auto simp add: discoverTools_def discoverTools_try_def r_def [symmetric]
            split: sum.splits)
    qed
  qed
qed

lemma keyed_lookup:
  "list_all (\<lambda>p. fst p = key (snd p)) al \<Longrightarrow> map_of al k = Some v \<Longrightarrow> key v = k"
  by (induction al) (auto split: if_splits)

lemma keyedById_updateToolStatistics:
  assumes "keyedById st"
  shows "keyedById (updateToolStatistics now toolId duration succeeded st)"
proof (cases "map_of (tools st) toolId")
  case None
  with assms show ?thesis by (simp add: updateToolStatistics_def)
next
  case (Some e)
  from assms have "list_all (\<lambda>p. fst p = entry_id (snd p)) (tools st)"
    by (simp add: keyedById_def)
  from keyed_lookup [OF this Some] have "entry_id e = toolId" .
  with assms Some show ?thesis
    by (simp add: keyedById_def updateToolStatistics_def Let_def distinct_update keyed_update)
qed

lemma keyedById_executeTool:
  "keyedById st \<Longrightarrow> keyedById (fst (snd (executeTool now duration reply toolId st)))"
  by (simp add: executeTool_def keyedById_updateToolStatistics
      split: option.split axios_post.split)

lemma keyedById_restoreTools:
  "keyedById st \<Longrightarrow> case_sum keyedById keyedById (restoreTools ts st)"
proof (induction ts arbitrary: st)
  case Nil
  then show ?case by simp
next
  case (Cons item ts)
  show ?case
  proof (cases item)
    case None
    with Cons.prems show ?thesis by simp
  next
    case (Some t)
    from Cons.prems have "keyedById (st\<lparr>tools := AList.update (entry_id t) t (tools st)\<rparr>)"
      by (simp add: keyedById_def distinct_update keyed_update)
    from Cons.IH [OF this] Some show ?thesis by simp
  qed
qed

lemma keyedById_restoreServers:
  "keyedById st \<Longrightarrow> case_sum keyedById keyedById (restoreServers ss st)"
proof (induction ss arbitrary: st)
  case Nil
  then show ?case by simp
next
  case (Cons item ss)
  show ?case
  proof (cases item)
    case None
    with Cons.prems show ?thesis by simp
  next
    case (Some srv)
    from Cons.prems have "keyedById (st\<lparr>servers := AList.update (srv_id srv) srv (servers st)\<rparr>)"
      by (simp add: keyedById_def distinct_update keyed_update)
    from Cons.IH [OF this] Some show ?thesis by simp
  qed
qed

lemma keyedById_loadPersistedRegistry:
  assumes "keyedById st"
  shows "case_sum (\<lambda>r. keyedById (snd r)) keyedById (loadPersistedRegistry file st)"
proof (cases "file")
  case (Parsed parsed)
  define r where
    "r = (case snap_tools parsed of None \<Rightarrow> Inr st | Some ts \<Rightarrow> restoreTools ts st)"
  have r: "case_sum keyedById keyedById r"
    using keyedById_restoreTools [OF assms] assms
    by (simp add: r_def split: option.split)
  show ?thesis
  proof (cases r)
    case (Inl st1)
    with r Parsed show ?thesis
      by (simp add: loadPersistedRegistry_def r_def [symmetric])
  next
    case (Inr st1)
    with r have k1: "keyedById st1" by simp
    define r2 where
      "r2 = (case snap_servers parsed of None \<Rightarrow> Inr st1 | Some ss \<Rightarrow> restoreServers ss st1)"
    have r2: "case_sum keyedById keyedById r2"
      using keyedById_restoreServers [OF k1] k1
      by (simp add: r2_def split: option.split)
    have "loadPersistedRegistry file st =
        (case r2 of Inl st2 \<Rightarrow> Inl (NullElement, st2) | Inr st2 \<Rightarrow> Inr st2)"
      using Parsed Inr
      by (simp add: loadPersistedRegistry_def r_def [symmetric] r2_def)
    with r2 show ?thesis
      by (cases r2) simp_all
  qed
qed (use assms in \<open>simp_all add: loadPersistedRegistry_def\<close>)

section \<open>Statistics: where the code departs from the specification\<close>

lemma executeTool_echo_fails:
  "executeTool 110 12 (Throws ''timeout'') ''s1:echo'' echo_registry =
     (Inl (RemoteError ''timeout''),
      echo_registry\<lparr>tools := [(''s1:echo'',
         echo_entry\<lparr>executionCount := 1, lastExecuted := Some 110, averageExecutionTime := 12,
                    successRate := 0, lastUpdated := 110\<rparr>)]\<rparr>,
      [''s1:echo''])"
  by (simp add: executeTool_def updateToolStatistics_def echo_registry_def echo_entry_def
      or_else_def)

lemma executeTools_echo_fail_then_succeed:
  "executeTools [(110, 12, Throws ''timeout''), (120, 8, Responds ok_result)] ''s1:echo''
     echo_registry =
   echo_registry\<lparr>tools := [(''s1:echo'',
      echo_entry\<lparr>executionCount := 2, lastExecuted := Some 120, averageExecutionTime := 10,
                 successRate := 1, lastUpdated := 120\<rparr>)]\<rparr>"
  by (simp add: executeTool_echo_fails)
     (simp add: executeTool_def updateToolStatistics_def echo_registry_def echo_entry_def
      or_else_def)

lemma executeTools_echo_zero_duration:
  "executeTools [(110, 0, Responds ok_result), (120, 10, Responds ok_result)] ''s1:echo''
     echo_registry =
   echo_registry\<lparr>tools := [(''s1:echo'',
      echo_entry\<lparr>executionCount := 2, lastExecuted := Some 120, averageExecutionTime := 10,
                 successRate := 1, lastUpdated := 120\<rparr>)]\<rparr>"
  by (simp add: executeTool_def updateToolStatistics_def echo_registry_def echo_entry_def
      or_else_def)

lemma second_discovery_empty:
  "updateTools 200 [] echo_registry =
     echo_registry\<lparr>tools :=
       [(''s1:echo'', echo_entry\<lparr>isAvailable := False, lastUpdated := 200\<rparr>)]\<rparr>"
  by (simp add: updateTools_def markMissing_def markUnavailable_def echo_registry_def
      echo_entry_def)

text \<open>
  C1 says that \<open>N\<close> calls of which \<open>M\<close> succeed leave \<open>successRate = M / N\<close> and the two-point
  running average of the durations. The code does otherwise at these inputs, both on the
  entry that the first discovery of a tool creates. A failed call followed by a successful
  one leaves \<open>successRate = 1\<close>, where \<open>M / N = 1 / 2\<close>: the rate \<open>0\<close> after the failure is
  falsy, \<open>successRate || 1.0\<close> reads it as \<open>1\<close>, and one earlier success is inferred.
  Two calls of durations \<open>0\<close> and \<open>10\<close> leave the average \<open>10\<close>, where the running average is
  \<open>5\<close>: an average of \<open>0\<close> is taken for no average yet.
\<close>

theorem executeTool_statistics_after_failure:
  "map_option successRate
     (getTool (executeTools [(110, 12, Throws ''timeout''), (120, 8, Responds ok_result)]
                ''s1:echo'' (updateTools 100 [echo_tool] new_registry)) ''s1:echo'') = Some 1 \<and>
   spec_successRate [Throws ''timeout'', Responds ok_result] = 1 / 2 \<and>
   map_option averageExecutionTime
     (getTool (executeTools [(110, 0, Responds ok_result), (120, 10, Responds ok_result)]
                ''s1:echo'' (updateTools 100 [echo_tool] new_registry)) ''s1:echo'') = Some 10 \<and>
   spec_runningAverage [0, 10] = 5"
  unfolding first_discovery_echo executeTools_echo_fail_then_succeed
    executeTools_echo_zero_duration
  by (simp add: getTool_def echo_registry_def spec_successRate_def responded_def)

subsection \<open>Where the statistics follow the formulas\<close>

text \<open>
  One call for an available tool: the statistics that \<open>updateToolStatistics\<close> leaves.
\<close>

lemma updateToolStatistics_entry:
  assumes "map_of (tools st) toolId = Some e"
  shows "map_of (tools (updateToolStatistics now toolId d ok st)) toolId =
     Some (e\<lparr>executionCount := executionCount e + 1,
              lastExecuted := Some now,
              averageExecutionTime :=
                (if averageExecutionTime e = 0 then d else (averageExecutionTime e + d) / 2),
              successRate :=
                of_int (round (or_else (successRate e) 1 * of_nat (executionCount e)) +
                        (if ok then 1 else 0)) / of_nat (executionCount e + 1),
              lastUpdated := now\<rparr>)"
  using assms by (simp add: updateToolStatistics_def Let_def update_conv')

lemma executeTool_available:
  assumes "map_of (tools st) toolId = Some e" and "isAvailable e"
  shows "fst (snd (executeTool now d reply toolId st)) =
           updateToolStatistics now toolId d (responded reply) st"
  using assms by (simp add: executeTool_def responded_def split: axios_post.split)

lemma inferred_successes:
  assumes "0 < n" and "0 < s"
  shows "round (or_else (of_nat s / of_nat n :: rat) 1 * of_nat n) = int s"
proof -
  from assms have "(of_nat s / of_nat n :: rat) \<noteq> 0" by simp
  then have "or_else (of_nat s / of_nat n :: rat) 1 = of_nat s / of_nat n"
    by (simp add: or_else_def)
  moreover from assms have "(of_nat s / of_nat n :: rat) * of_nat n = of_nat s" by simp
  ultimately show ?thesis by simp
qed

text \<open>
  Once an entry has a positive number of successes and a positive average, and the measured
  durations are positive, a run of calls keeps the success rate at the ratio of the
  successes and folds the durations into the two-point average.
\<close>

lemma executeTools_tracked:
  assumes "map_of (tools st) toolId = Some e" and "isAvailable e"
    and "executionCount e = n" and "0 < n"
    and "successRate e = of_nat s / of_nat n" and "0 < s"
    and "averageExecutionTime e = a" and "0 < a"
    and "\<forall>c \<in> set calls. 0 < fst (snd c)"
  shows "\<exists>e'. map_of (tools (executeTools calls toolId st)) toolId = Some e' \<and>
           isAvailable e' \<and> executionCount e' = n + length calls \<and>
           successRate e' =
             of_nat (s + length (filter (\<lambda>c. responded (snd (snd c))) calls)) /
             of_nat (n + length calls) \<and>
           averageExecutionTime e' = foldl (\<lambda>avg d. (avg + d) / 2) a (map (\<lambda>c. fst (snd c)) calls)"
  using assms
proof (induction calls arbitrary: st e n s a)
  case Nil
  then show ?case by simp
next
  case (Cons c calls)
  obtain now d reply where c: "c = (now, d, reply)" by (cases c)
  define b :: nat where "b = (if responded reply then 1 else 0)"
  define st1 where "st1 = updateToolStatistics now toolId d (responded reply) st"
  define e1 where "e1 = e\<lparr>executionCount := n + 1, lastExecuted := Some now,
      averageExecutionTime := (a + d) / 2,
      successRate := of_nat (s + b) / of_nat (n + 1), lastUpdated := now\<rparr>"
  from Cons.prems c have d: "0 < d" by simp
  have step: "fst (snd (executeTool now d reply toolId st)) = st1"
    using Cons.prems(1,2) by (simp add: executeTool_available st1_def)
  have inf: "round (or_else (successRate e) 1 * of_nat (executionCount e)) = int s"
    using Cons.prems(3,4,5,6) inferred_successes [of n s] by simp
  have look: "map_of (tools st1) toolId = Some e1"
    unfolding st1_def
    using updateToolStatistics_entry [OF Cons.prems(1), of now d "responded reply"]
      Cons.prems(3,7,8) inf
    by (simp add: e1_def b_def)
  have rest: "\<forall>c \<in> set calls. 0 < fst (snd c)"
    using Cons.prems(9) by simp
  have "\<exists>e'. map_of (tools (executeTools calls toolId st1)) toolId = Some e' \<and>
           isAvailable e' \<and> executionCount e' = (n + 1) + length calls \<and>
           successRate e' =
             of_nat ((s + b) + length (filter (\<lambda>c. responded (snd (snd c))) calls)) /
             of_nat ((n + 1) + length calls) \<and>
           averageExecutionTime e' =
             foldl (\<lambda>avg d. (avg + d) / 2) ((a + d) / 2) (map (\<lambda>c. fst (snd c)) calls)"
  proof (rule Cons.IH [OF look _ _ _ _ _ _ _ rest])
    show "isAvailable e1" using Cons.prems(2) by (simp add: e1_def)
    show "executionCount e1 = n + 1" by (simp add: e1_def)
    show "0 < n + 1" by simp
    show "successRate e1 = of_nat (s + b) / of_nat (n + 1)" by (simp add: e1_def)
    show "0 < s + b" using Cons.prems(6) by simp
    show "averageExecutionTime e1 = (a + d) / 2" by (simp add: e1_def)
    show "0 < (a + d) / 2" using Cons.prems(8) d by simp
  qed
  then show ?case
    using step c by (auto simp add: b_def)
qed

text \<open>
  So for an entry as the first discovery creates it, the success rate is \<open>M / N\<close> and the
  average is the two-point running average whenever the first call succeeds and every
  measured duration is positive.
\<close>

lemma executeTools_fresh_entry:
  assumes "map_of (tools st) toolId = Some e" and "isAvailable e"
    and "executionCount e = 0" and "averageExecutionTime e = 0" and "successRate e = 1"
    and "calls = (now, d, Responds r) # rest"
    and "\<forall>c \<in> set calls. 0 < fst (snd c)"
  shows "\<exists>e'. getTool (executeTools calls toolId st) toolId = Some e' \<and>
           executionCount e' = length calls \<and>
           successRate e' = spec_successRate (map (\<lambda>c. snd (snd c)) calls) \<and>
           averageExecutionTime e' = spec_runningAverage (map (\<lambda>c. fst (snd c)) calls)"
proof -
  define st1 where "st1 = updateToolStatistics now toolId d True st"
  define e1 where "e1 = e\<lparr>executionCount := 1, lastExecuted := Some now,
      averageExecutionTime := d, successRate := 1, lastUpdated := now\<rparr>"
  from assms(6,7) have d: "0 < d" and rest: "\<forall>c \<in> set rest. 0 < fst (snd c)" by simp_all
  have step: "fst (snd (executeTool now d (Responds r) toolId st)) = st1"
    using assms(1,2) by (simp add: executeTool_available st1_def responded_def)
  have look: "map_of (tools st1) toolId = Some e1"
    unfolding st1_def
    using updateToolStatistics_entry [OF assms(1), of now d True] assms(3,4,5)
    by (simp add: e1_def or_else_def)
  have "\<exists>e'. map_of (tools (executeTools rest toolId st1)) toolId = Some e' \<and>
           isAvailable e' \<and> executionCount e' = 1 + length rest \<and>
           successRate e' =
             of_nat (1 + length (filter (\<lambda>c. responded (snd (snd c))) rest)) /
             of_nat (1 + length rest) \<and>
           averageExecutionTime e' = foldl (\<lambda>avg d. (avg + d) / 2) d (map (\<lambda>c. fst (snd c)) rest)"
  proof (rule executeTools_tracked [OF look _ _ _ _ _ _ _ rest])
    show "isAvailable e1" using assms(2) by (simp add: e1_def)
    show "executionCount e1 = 1" by (simp add: e1_def)
    show "successRate e1 = of_nat 1 / of_nat 1" by (simp add: e1_def)
    show "averageExecutionTime e1 = d" by (simp add: e1_def)
    show "0 < d" by (rule d)
  qed simp_all
  then show ?thesis
    using step assms(6)
    by (auto simp add: getTool_def spec_successRate_def responded_def comp_def)
qed

subsection \<open>Calls that are rejected before the request\<close>

lemma executeTool_not_found:
  assumes "getTool st toolId = None"
  shows "executeTool now d reply toolId st = (Inl (ToolNotFound toolId), st, [])"
  using assms by (simp add: executeTool_def getTool_def updateToolStatistics_def)

lemma executeTool_unavailable:
  assumes "getTool st toolId = Some e" and "\<not> isAvailable e"
  shows "executeTool now d reply toolId st =
           (Inl (ToolNotAvailable toolId), updateToolStatistics now toolId d False st, [])"
  using assms by (simp add: executeTool_def getTool_def)

text \<open>
  C3 says that a call for an unavailable tool is rejected, forwards no request and leaves
  the statistics of the entry alone. The code rejects it with the error for an unavailable
  tool and posts no request, but the guard throws inside the \<open>try\<close> block, and the \<open>catch\<close>
  block records the call as a failed execution: after a discovery of the tool and a pass
  that no longer reports it, one rejected call moves \<open>executionCount\<close> from 0 to 1,
  \<open>lastExecuted\<close> from undefined to the time of the call, \<open>averageExecutionTime\<close> from 0 to
  the duration of the call and \<open>successRate\<close> from 1 to 0.
\<close>

theorem unavailable_call_updates_statistics:
  "executeTool 300 1 (Responds ok_result) ''s1:echo''
     (updateTools 200 [] (updateTools 100 [echo_tool] new_registry)) =
   (Inl (ToolNotAvailable ''s1:echo''),
    echo_registry\<lparr>tools := [(''s1:echo'',
       echo_entry\<lparr>isAvailable := False, executionCount := 1, lastExecuted := Some 300,
                  averageExecutionTime := 1, successRate := 0, lastUpdated := 300\<rparr>)]\<rparr>,
    [])"
  unfolding first_discovery_echo second_discovery_empty
  by (simp add: executeTool_def updateToolStatistics_def echo_registry_def echo_entry_def
      or_else_def)

lemma echo_tool_v2_changed: "hasToolChanged echo_tool echo_tool_v2"
  by (simp add: hasToolChanged_def echo_tool_def echo_tool_v2_def)

text \<open>
  C4 says that the upsert of a changed tool keeps the statistics of the prior entry,
  \<open>successRate = 0\<close> included. The code keeps \<open>executionCount\<close> and \<open>averageExecutionTime\<close>,
  but \<open>existing?.successRate || 1.0\<close> turns a prior rate of \<open>0\<close> into \<open>1\<close>: after one failed
  call the entry has the rate \<open>0\<close>, and a pass that reports the tool with a new description
  leaves the rate \<open>1\<close>.
\<close>

theorem upsert_resets_zero_successRate:
  "map_option successRate
     (getTool (fst (snd (executeTool 110 12 (Throws ''timeout'') ''s1:echo''
                          (updateTools 100 [echo_tool] new_registry)))) ''s1:echo'') = Some 0 \<and>
   getTool (updateTools 200 [echo_tool_v2]
       (fst (snd (executeTool 110 12 (Throws ''timeout'') ''s1:echo''
                   (updateTools 100 [echo_tool] new_registry))))) ''s1:echo'' =
     Some (echo_entry\<lparr>tool := echo_tool_v2, executionCount := 1, lastExecuted := Some 110,
             averageExecutionTime := 12, successRate := 1, lastUpdated := 200\<rparr>)"
  unfolding first_discovery_echo executeTool_echo_fails
  apply (simp add: updateTools_def upsertTool_def markMissing_def markUnavailable_def
      getTool_def hasToolChanged_def echo_registry_def saveRegistryDebounced_def Let_def)
  apply (simp add: registryEntry_def echo_entry_def or_else_def)
  apply (simp add: echo_tool_v2_def echo_tool_def categorizeTool_def generateTags_def
      toLowerCase_def lower_char_def serverId_or_unknown_def)
  done

text \<open>
  What the upsert of a changed tool keeps in general: the count and the average always, the
  success rate unless it is \<open>0\<close>.
\<close>

lemma upsertTool_changed_statistics:
  assumes "map_of (tools st) (generateToolId t) = Some e" and "hasToolChanged (tool e) t"
  shows "\<exists>e'. map_of (tools (upsertTool now st t)) (generateToolId t) = Some e' \<and>
           tool e' = t \<and> executionCount e' = executionCount e \<and>
           averageExecutionTime e' = averageExecutionTime e \<and>
           successRate e' = (if successRate e = 0 then 1 else successRate e)"
  using assms
  by (simp add: upsertTool_def Let_def saveRegistryDebounced_def update_conv' registryEntry_def
      or_else_def)

text \<open>
  C6 says that every entry whose tool appears in a pass is available after the pass, also
  one that was unavailable and reappears with its descriptive fields as they were. The code
  sets \<open>isAvailable = true\<close> only when it builds an entry, for a new or a changed tool: a
  tool that is discovered, then missing from a pass, then reported again unchanged, stays
  unavailable.
\<close>

theorem reappearing_tool_stays_unavailable:
  "generateToolId echo_tool = ''s1:echo'' \<and>
   getTool (updateTools 200 [] (updateTools 100 [echo_tool] new_registry)) ''s1:echo'' =
     Some (echo_entry\<lparr>isAvailable := False, lastUpdated := 200\<rparr>) \<and>
   getTool (updateTools 300 [echo_tool]
              (updateTools 200 [] (updateTools 100 [echo_tool] new_registry))) ''s1:echo'' =
     Some (echo_entry\<lparr>isAvailable := False, lastUpdated := 200\<rparr>)"
  unfolding first_discovery_echo second_discovery_empty
  by (simp add: updateTools_def markMissing_def upsertTool_def hasToolChanged_def
       markUnavailable_def echo_registry_def echo_entry_def getTool_def Let_def)

text \<open>
  What a pass does guarantee: an entry whose tool the pass reports is available afterwards
  if it was available before the pass, or was not known before it.
\<close>

lemma upsertTool_keeps_available:
  assumes "\<forall>e. map_of (tools st) k = Some e \<longrightarrow> isAvailable e"
  shows "\<forall>e. map_of (tools (upsertTool now st t)) k = Some e \<longrightarrow> isAvailable e"
  using assms
  by (auto simp add: upsertTool_def Let_def saveRegistryDebounced_def update_conv'
      registryEntry_def split: if_splits option.splits)

lemma upsertTool_present:
  "map_of (tools (upsertTool now st t)) (generateToolId t) \<noteq> None"
  by (auto simp add: upsertTool_def Let_def saveRegistryDebounced_def update_conv'
      split: option.splits)

lemma foldl_upsertTool_keeps_available:
  assumes "\<forall>e. map_of (tools st) k = Some e \<longrightarrow> isAvailable e"
  shows "\<forall>e. map_of (tools (foldl (upsertTool now) st ts)) k = Some e \<longrightarrow> isAvailable e"
  using assms
proof (induction ts arbitrary: st)
  case Nil
  then show ?case by simp
next
  case (Cons t ts)
  from upsertTool_keeps_available [OF Cons.prems]
  have "\<forall>e. map_of (tools (upsertTool now st t)) k = Some e \<longrightarrow> isAvailable e" .
  from Cons.IH [OF this] show ?case by simp
qed

lemma foldl_upsertTool_present:
  assumes "k \<in> generateToolId ` set ts"
  shows "map_of (tools (foldl (upsertTool now) st ts)) k \<noteq> None"
  using assms
proof (induction ts arbitrary: st)
  case Nil
  then show ?case by simp
next
  case (Cons t ts)
  show ?case
  proof (cases "k = generateToolId t")
    case True
    then have "map_of (tools (upsertTool now st t)) k \<noteq> None"
      by (simp add: upsertTool_present)
    from dom_foldl_upsertTool [OF this] show ?thesis by simp
  next
    case False
    with Cons.prems have "k \<in> generateToolId ` set ts" by auto
    from Cons.IH [OF this] show ?thesis by simp
  qed
qed

lemma updateTools_reported_available:
  assumes "k \<in> generateToolId ` set ts"
    and "\<forall>e. map_of (tools st) k = Some e \<longrightarrow> isAvailable e"
  shows "\<exists>e'. getTool (updateTools now ts st) k = Some e' \<and> isAvailable e'"
proof -
  from foldl_upsertTool_present [OF assms(1)] obtain e' where
    e': "map_of (tools (foldl (upsertTool now) st ts)) k = Some e'" by blast
  with foldl_upsertTool_keeps_available [OF assms(2)] have "isAvailable e'" by blast
  with e' assms(1) show ?thesis
    by (simp add: getTool_def updateTools_def markMissing_def map_of_markUnavailable)
qed

section \<open>Workflow execution\<close>

lemma reachable_no_active: "reachable st \<Longrightarrow> activeExecutions st = []"
  by (induction rule: reachable.induct)
     (simp_all add: new_orchestrator_def orch_initialize_def executeWorkflow_def Let_def
       orch_executeTool_def cancelExecution_def split: prod.split)

text \<open>The workflow of the two steps is a valid DAG: step ids are unique and the one
  dependency points back to a step of the workflow.\<close>

lemma validDag_two_step: "validDag two_step_workflow"
proof -
  have "dependsOn two_step_workflow = {(''A'', ''B'')}"
    by (auto simp add: dependsOn_def two_step_workflow_def step_A_def step_B_def)
  moreover have "acyclic ({} :: (string \<times> string) set)"
    by (simp add: acyclic_def)
  ultimately have "acyclic (dependsOn two_step_workflow)"
    by simp
  then show ?thesis
    by (simp add: validDag_def two_step_workflow_def step_A_def step_B_def)
qed

text \<open>
  C10. For every workflow and context, \<open>executeWorkflow\<close> returns an execution with status
  \<open>completed\<close>, no results, no errors, and both \<open>startTime\<close> and \<open>endTime\<close> stamped, whatever
  the steps of the workflow are. It leaves the orchestrator as it was; in every state that the
  orchestrator reaches, the index of active executions does not hold the returned execution:
  \<open>getExecution\<close> finds nothing under its id and \<open>cancelExecution\<close> returns false.
\<close>

theorem executeWorkflow_completed_stub:
  assumes "reachable st"
  shows "\<exists>execution.
           executeWorkflow now rnd t1 t2 workflow context st = (execution, [], st) \<and>
           status execution = completed \<and> results execution = [] \<and> errors execution = [] \<and>
           startTime execution = t1 \<and> endTime execution = Some t2 \<and>
           getExecution st (exec_id execution) = None \<and>
           cancelExecution st (exec_id execution) = (False, st)"
  using reachable_no_active [OF assms]
  by (simp add: executeWorkflow_def Let_def getExecution_def cancelExecution_def)

theorem executeWorkflow_completed_stub_witness:
  "reachable (orch_initialize new_orchestrator) \<and>
   (\<exists>execution.
      executeWorkflow 1757116800000 ''k3j9x0q1z'' ''2025-09-06T00:00:00.000Z''
        ''2025-09-06T00:00:00.001Z'' two_step_workflow test_context
        (orch_initialize new_orchestrator) = (execution, [], orch_initialize new_orchestrator) \<and>
      status execution = completed \<and> results execution = [] \<and>
      getExecution (orch_initialize new_orchestrator) (exec_id execution) = None)"
proof -
  have r: "reachable (orch_initialize new_orchestrator)"
    by (rule reachable.initialized) (rule reachable.new)
  from executeWorkflow_completed_stub [OF r] show ?thesis
    using r by blast
qed


end
